theory Spec2Isabelle
  imports Complex_Main
begin

section \<open>Python values\<close>

text \<open>
  The service (app.py) keeps a hash-chained ledger in the file ledger.json and feeds it
  from an HTTP handler and from a background telemetry simulation.

  A Python float is modelled by its exact value together with its \<open>repr\<close>, the text that
  \<open>str\<close> and \<open>json.dumps\<close> print for it. Only comparison and printing of floats occur in
  the modelled code. A Python \<open>str\<close> is modelled by its UTF-8 bytes, so \<open>.encode()\<close> is
  the identity and \<open>+\<close> on bytes is \<open>@\<close>.
\<close>

datatype pyfloat = PyFloat (fval: real) (frepr: string)

datatype pyval =
    PNone
  | PBool bool
  | PInt int
  | PFloat pyfloat
  | PStr string
  | PList "pyval list"
  | PDict "(string \<times> pyval) list"

text \<open>
  The two library functions the ledger hashes with are parameters of the model:
  \<open>hashlib.sha256(b).hexdigest()\<close> and \<open>json.dumps(v, sort_keys=True)\<close>.
\<close>

record pylib =
  sha256_hexdigest :: "string \<Rightarrow> string"
  json_dumps :: "pyval \<Rightarrow> string"

datatype error =
    FileNotFoundError
  | OSError
  | JSONDecodeError
  | IndexError
  | HTTPException int string

section \<open>The ledger file and the rest of the process state\<close>

text \<open>
  A block is the dictionary with the keys index, timestamp, prev_hash, data and hash that
  \<open>init_ledger\<close> and \<open>add_block\<close> build; ledger.json holds the JSON array of the blocks.
  The file is absent, holds an array of blocks, or holds the remains of a write that
  failed part-way (\<open>Torn\<close>: json.load raises on it).
\<close>

record block =
  index :: int
  timestamp :: pyfloat
  prev_hash :: string
  data :: pyval
  hash :: string

datatype ledger_file = Missing | Stored "block list" | Torn

text \<open>
  Failures of the file system are chosen by the environment: \<open>OpenFails\<close> makes
  \<open>open\<close> raise, \<open>ReadFails\<close> makes reading raise, \<open>WriteFails\<close> makes the write raise
  after a part of the new text has reached the file. Both writers write into the file
  itself (\<open>open(..., "w")\<close> in \<open>init_ledger\<close>; \<open>seek(0)\<close>, \<open>json.dump\<close>, \<open>truncate\<close> on
  the file opened with \<open>"r+"\<close> in \<open>add_block\<close>), so such a write leaves a torn file.
\<close>

datatype io_fault = NoFault | OpenFails | ReadFails | WriteFails

record shipment_row =
  shipment_id :: string
  batch_id :: string
  status :: string
  created_at :: string

record telemetry_row =
  t_shipment_id :: string
  t_ts :: string
  t_lat :: pyfloat
  t_lon :: pyfloat
  t_temp :: pyfloat
  t_humidity :: pyfloat
  t_pressure :: pyfloat
  t_tamper :: int

text \<open>A started thread: the arguments of \<open>simulation_loop\<close> and whether it is still alive.\<close>

record thread =
  thread_shipment_ids :: "string list"
  thread_interval :: pyfloat
  is_alive :: bool

text \<open>
  \<open>time_src\<close> and \<open>utc_src\<close> give the successive results of \<open>time.time()\<close> and of
  \<open>datetime.datetime.utcnow().isoformat()\<close>; \<open>reads\<close> counts the clock reads made so far.
  \<open>started\<close> lists the threads started so far.
\<close>

record world =
  ledger :: ledger_file
  fault :: io_fault
  time_src :: "nat \<Rightarrow> pyfloat"
  utc_src :: "nat \<Rightarrow> string"
  reads :: nat
  shipments :: "shipment_row list"
  telemetry :: "telemetry_row list"
  sim_thread :: "thread option"
  sim_stop_event :: bool
  started :: "thread list"

definition time_time :: "world \<Rightarrow> pyfloat \<times> world" where
  "time_time w = (time_src w (reads w), w\<lparr>reads := Suc (reads w)\<rparr>)"

definition utcnow_isoformat :: "world \<Rightarrow> string \<times> world" where
  "utcnow_isoformat w = (utc_src w (reads w), w\<lparr>reads := Suc (reads w)\<rparr>)"

section \<open>Blockchain ledger simulation\<close>

definition genesis_data :: pyval where
  "genesis_data = PDict [(''genesis'', PBool True)]"

definition init_ledger :: "pylib \<Rightarrow> world \<Rightarrow> (error + unit) \<times> world" where
  "init_ledger L w =
     (if ledger w = Missing then
        (let (t, w1) = time_time w;
             genesis = \<lparr>index = 0, timestamp = t, prev_hash = replicate 64 CHR ''0'',
                        data = genesis_data,
                        hash = sha256_hexdigest L (json_dumps L genesis_data)\<rparr>
         in if fault w1 = OpenFails then (Inl OSError, w1)
            else if fault w1 = WriteFails then (Inl OSError, w1\<lparr>ledger := Torn\<rparr>)
            else (Inr (), w1\<lparr>ledger := Stored [genesis]\<rparr>))
      else (Inr (), w))"

text \<open>Lines 34 to 37 of \<open>add_block\<close>: create the file if it is absent, open it, load the chain.\<close>

definition add_block_load :: "pylib \<Rightarrow> world \<Rightarrow> (error + block list) \<times> world" where
  "add_block_load L w =
     (case (if ledger w = Missing then init_ledger L w else (Inr (), w)) of
        (Inl e, w1) \<Rightarrow> (Inl e, w1)
      | (Inr _, w1) \<Rightarrow>
          (case ledger w1 of
             Missing \<Rightarrow> (Inl FileNotFoundError, w1)
           | Torn \<Rightarrow>
               if fault w1 = OpenFails \<or> fault w1 = ReadFails then (Inl OSError, w1)
               else (Inl JSONDecodeError, w1)
           | Stored chain \<Rightarrow>
               if fault w1 = OpenFails \<or> fault w1 = ReadFails then (Inl OSError, w1)
               else (Inr chain, w1)))"

text \<open>
  Lines 38 to 54 of \<open>add_block\<close>: build the block after the last one of the loaded chain,
  write the extended chain over the file from its start, return the block.
\<close>

definition add_block_store ::
  "pylib \<Rightarrow> string \<Rightarrow> pyval \<Rightarrow> block list \<Rightarrow> world \<Rightarrow> (error + block) \<times> world" where
  "add_block_store L event_type payload chain w =
     (if chain = [] then (Inl IndexError, w)
      else
        (let lst = last chain;
             (t, w1) = time_time w;
             d = PDict [(''event'', PStr event_type), (''payload'', payload)];
             blk = \<lparr>index = index lst + 1, timestamp = t, prev_hash = hash lst, data = d,
                    hash = sha256_hexdigest L (json_dumps L d @ frepr t @ hash lst)\<rparr>
         in if fault w1 = WriteFails then (Inl OSError, w1\<lparr>ledger := Torn\<rparr>)
            else (Inr blk, w1\<lparr>ledger := Stored (chain @ [blk])\<rparr>)))"

definition add_block :: "pylib \<Rightarrow> string \<Rightarrow> pyval \<Rightarrow> world \<Rightarrow> (error + block) \<times> world" where
  "add_block L event_type payload w =
     (case add_block_load L w of
        (Inl e, w1) \<Rightarrow> (Inl e, w1)
      | (Inr chain, w1) \<Rightarrow> add_block_store L event_type payload chain w1)"

text \<open>Python's \<open>xs[s:]\<close> for any integer \<open>s\<close>.\<close>

definition py_slice_from :: "'a list \<Rightarrow> int \<Rightarrow> 'a list" where
  "py_slice_from xs s =
     (let n = int (length xs)
      in if s < 0 then drop (nat (max 0 (n + s))) xs else drop (nat (min s n)) xs)"

definition api_ledger :: "int \<Rightarrow> world \<Rightarrow> (error + block list) \<times> world" where
  "api_ledger limit w =
     (case ledger w of
        Missing \<Rightarrow> (Inr [], w)
      | Torn \<Rightarrow>
          if fault w = OpenFails \<or> fault w = ReadFails then (Inl OSError, w)
          else (Inl JSONDecodeError, w)
      | Stored chain \<Rightarrow>
          if fault w = OpenFails \<or> fault w = ReadFails then (Inl OSError, w)
          else (Inr (py_slice_from chain (- limit)), w))"

section \<open>SQLite database\<close>

text \<open>
  The two tables are lists of rows. \<open>insert_shipment\<close> reads the clock first and ignores
  the IntegrityError of a duplicate shipment_id (the column is UNIQUE).
\<close>

definition insert_shipment :: "string \<Rightarrow> string \<Rightarrow> world \<Rightarrow> world" where
  "insert_shipment sid bid w =
     (let (now, w1) = utcnow_isoformat w
      in if sid \<in> set (map shipment_id (shipments w1)) then w1
         else w1\<lparr>shipments := shipments w1 @
                [\<lparr>shipment_id = sid, batch_id = bid, status = ''In Transit'', created_at = now\<rparr>]\<rparr>)"

record reading =
  lat :: pyfloat
  lon :: pyfloat
  temp :: pyfloat
  humidity :: pyfloat
  pressure :: pyfloat
  tamper :: bool

definition insert_telemetry :: "string \<Rightarrow> reading \<Rightarrow> world \<Rightarrow> world" where
  "insert_telemetry sid r w =
     (let (ts, w1) = utcnow_isoformat w
      in w1\<lparr>telemetry := telemetry w1 @
             [\<lparr>t_shipment_id = sid, t_ts = ts, t_lat = lat r, t_lon = lon r, t_temp = temp r,
               t_humidity = humidity r, t_pressure = pressure r,
               t_tamper = (if tamper r then 1 else 0)\<rparr>]\<rparr>)"

section \<open>Telemetry simulation thread\<close>

text \<open>
  A \<open>reading\<close> holds the values that lines 151 to 156 of \<open>simulation_loop\<close> draw from the
  random generator for one shipment. \<open>simulation_reading\<close> is the body of the inner loop
  (lines 151 to 160), \<open>simulation_tick\<close> the inner loop over the shipments, and
  \<open>simulation_loop\<close> the outer loop, run for the rounds it is given; an exception of
  \<open>add_block\<close> leaves the loops.
\<close>

definition alert_payload :: "string \<Rightarrow> reading \<Rightarrow> string \<Rightarrow> pyval" where
  "alert_payload sid r ts =
     PDict [(''shipment_id'', PStr sid), (''temp'', PFloat (temp r)),
            (''tamper'', PBool (tamper r)), (''ts'', PStr ts)]"

definition simulation_reading ::
  "pylib \<Rightarrow> string \<Rightarrow> reading \<Rightarrow> world \<Rightarrow> (error + unit) \<times> world" where
  "simulation_reading L sid r w =
     (let w1 = insert_telemetry sid r w
      in if tamper r \<or> fval (temp r) < 2 \<or> fval (temp r) > 30 then
           (let (ts, w2) = utcnow_isoformat w1
            in case add_block L ''ALERT'' (alert_payload sid r ts) w2 of
                 (Inl e, w3) \<Rightarrow> (Inl e, w3)
               | (Inr _, w3) \<Rightarrow> (Inr (), w3))
         else (Inr (), w1))"

fun simulation_tick ::
  "pylib \<Rightarrow> (string \<times> reading) list \<Rightarrow> world \<Rightarrow> (error + unit) \<times> world" where
  "simulation_tick L [] w = (Inr (), w)"
| "simulation_tick L ((sid, r) # rest) w =
     (case simulation_reading L sid r w of
        (Inl e, w1) \<Rightarrow> (Inl e, w1)
      | (Inr _, w1) \<Rightarrow> simulation_tick L rest w1)"

fun simulation_loop ::
  "pylib \<Rightarrow> (string \<times> reading) list list \<Rightarrow> world \<Rightarrow> (error + unit) \<times> world" where
  "simulation_loop L [] w = (Inr (), w)"
| "simulation_loop L (tick # ticks) w =
     (if sim_stop_event w then (Inr (), w)
      else case simulation_tick L tick w of
             (Inl e, w1) \<Rightarrow> (Inl e, w1)
           | (Inr _, w1) \<Rightarrow> simulation_loop L ticks w1)"

section \<open>API routes\<close>

definition digit_char :: "nat \<Rightarrow> char" where
  "digit_char n = ''0123456789'' ! (n mod 10)"

fun str_nat :: "nat \<Rightarrow> string" where
  "str_nat n = (if n < 10 then [digit_char n] else str_nat (n div 10) @ [digit_char n])"

declare str_nat.simps [simp del]

text \<open>Python's \<open>str\<close> of an int.\<close>

definition str_int :: "int \<Rightarrow> string" where
  "str_int i = (if i < 0 then CHR ''-'' # str_nat (nat (- i)) else str_nat (nat i))"

definition register_batch ::
  "pylib \<Rightarrow> string \<Rightarrow> string \<Rightarrow> world \<Rightarrow> (error + block) \<times> world" where
  "register_batch L bid manufacturer w =
     add_block L ''REGISTER_BATCH''
       (PDict [(''batch_id'', PStr bid), (''manufacturer'', PStr manufacturer)]) w"

definition running :: "world \<Rightarrow> bool" where
  "running w = (case sim_thread w of None \<Rightarrow> False | Some t \<Rightarrow> is_alive t)"

definition sim_shipment_ids :: "int \<Rightarrow> string list" where
  "sim_shipment_ids shipment_count = map (\<lambda>i. ''SHIP-SIM-'' @ str_int i) [1..shipment_count]"

definition api_simulate_start ::
  "int \<Rightarrow> pyfloat \<Rightarrow> world \<Rightarrow> (error + string \<times> string list) \<times> world" where
  "api_simulate_start shipment_count interval_sec w =
     (if running w then (Inl (HTTPException 400 ''Simulation already running''), w)
      else
        (let shipment_ids = sim_shipment_ids shipment_count;
             w1 = foldl (\<lambda>v sid. insert_shipment sid (''BATCH-SIM-'' @ [last sid]) v)
                    w shipment_ids;
             w2 = w1\<lparr>sim_stop_event := False\<rparr>;
             t = \<lparr>thread_shipment_ids = shipment_ids, thread_interval = interval_sec,
                  is_alive = True\<rparr>
         in (Inr (''started'', shipment_ids),
             w2\<lparr>sim_thread := Some t, started := started w2 @ [t]\<rparr>)))"

definition api_simulate_stop :: "world \<Rightarrow> string \<times> world" where
  "api_simulate_stop w = (''stopping'', w\<lparr>sim_stop_event := True\<rparr>)"

section \<open>Chain invariants\<close>

text \<open>
  The block that \<open>init_ledger\<close> writes when the clock reads \<open>t\<close>, and the block that
  \<open>add_block\<close> builds after the block \<open>lst\<close> when the clock reads \<open>t\<close>.
\<close>

definition genesis_block :: "pylib \<Rightarrow> pyfloat \<Rightarrow> block" where
  "genesis_block L t =
     \<lparr>index = 0, timestamp = t, prev_hash = replicate 64 CHR ''0'', data = genesis_data,
      hash = sha256_hexdigest L (json_dumps L genesis_data)\<rparr>"

definition next_block :: "pylib \<Rightarrow> string \<Rightarrow> pyval \<Rightarrow> block \<Rightarrow> pyfloat \<Rightarrow> block" where
  "next_block L ev p lst t =
     \<lparr>index = index lst + 1, timestamp = t, prev_hash = hash lst,
      data = PDict [(''event'', PStr ev), (''payload'', p)],
      hash = sha256_hexdigest L
               (json_dumps L (PDict [(''event'', PStr ev), (''payload'', p)]) @ frepr t @ hash lst)\<rparr>"


fun contiguous_from :: "int \<Rightarrow> block list \<Rightarrow> bool" where
  "contiguous_from k [] = True"
| "contiguous_from k (b # bs) = (index b = k \<and> contiguous_from (k + 1) bs)"

fun linked :: "block list \<Rightarrow> bool" where
  "linked (a # b # bs) = (prev_hash b = hash a \<and> linked (b # bs))"
| "linked _ = True"




section \<open>Appends that overlap\<close>

text \<open>
  \<open>add_block\<close> takes no lock, so a second call can load the file between the load and the
  write of a first one. A schedule lists the order in which the calls do their two halves;
  \<open>loaded\<close> holds the chain each call has read and not yet written back.
\<close>

datatype sched_step = Load nat | Store nat

fun interleave ::
  "pylib \<Rightarrow> (nat \<Rightarrow> string \<times> pyval) \<Rightarrow> sched_step list \<Rightarrow> (nat \<Rightarrow> block list option)
     \<Rightarrow> world \<Rightarrow> world" where
  "interleave L calls [] loaded w = w"
| "interleave L calls (Load i # s) loaded w =
     (case add_block_load L w of
        (Inl e, w1) \<Rightarrow> interleave L calls s loaded w1
      | (Inr chain, w1) \<Rightarrow> interleave L calls s (loaded(i := Some chain)) w1)"
| "interleave L calls (Store i # s) loaded w =
     (case loaded i of
        None \<Rightarrow> interleave L calls s loaded w
      | Some chain \<Rightarrow>
          interleave L calls s (loaded(i := None))
            (snd (add_block_store L (fst (calls i)) (snd (calls i)) chain w)))"

text \<open>The calls made one after the other.\<close>

fun add_blocks :: "pylib \<Rightarrow> (string \<times> pyval) list \<Rightarrow> world \<Rightarrow> world" where
  "add_blocks L [] w = w"
| "add_blocks L ((event_type, payload) # rest) w =
     add_blocks L rest (snd (add_block L event_type payload w))"

section \<open>Example values\<close>

text \<open>
  Concrete values at which the theorems below are instantiated. The theorems hold for
  every library; \<open>example_lib\<close> puts simple functions in the place of the two library
  functions.
\<close>

definition example_lib :: pylib where
  "example_lib = \<lparr>sha256_hexdigest = (\<lambda>b. ''#'' @ b), json_dumps = (\<lambda>v. ''$'')\<rparr>"

definition example_world :: world where
  "example_world =
     \<lparr>ledger = Missing, fault = NoFault,
      time_src = (\<lambda>n. PyFloat (real n) (str_nat n @ ''.0'')),
      utc_src = (\<lambda>n. ''2024-01-01T00:00:0'' @ str_nat n),
      reads = 0, shipments = [], telemetry = [], sim_thread = None,
      sim_stop_event = False, started = []\<rparr>"

definition example_payload :: pyval where
  "example_payload = PDict [(''batch_id'', PStr ''BATCH-001''), (''manufacturer'', PStr ''Acme'')]"

definition example_genesis :: block where
  "example_genesis = genesis_block example_lib (PyFloat 0 ''0.0'')"

definition example_block :: block where
  "example_block =
     next_block example_lib ''REGISTER_BATCH'' example_payload example_genesis (PyFloat 1 ''1.0'')"

definition example_started :: world where
  "example_started = example_world\<lparr>reads := 1, ledger := Stored [example_genesis]\<rparr>"

definition example_appended :: world where
  "example_appended =
     example_world\<lparr>reads := 2, ledger := Stored [example_genesis, example_block]\<rparr>"

definition example_later :: world where
  "example_later = example_world\<lparr>time_src := (\<lambda>n. PyFloat 1700000000.5 ''1700000000.5'')\<rparr>"

definition example_failing :: world where
  "example_failing = example_started\<lparr>fault := WriteFails\<rparr>"

definition example_calls :: "nat \<Rightarrow> string \<times> pyval" where
  "example_calls i = (if i = 0 then (''ALERT'', PStr ''first'') else (''ALERT'', PStr ''second''))"

definition example_lost :: block where
  "example_lost = next_block example_lib ''ALERT'' (PStr ''first'') example_genesis (PyFloat 1 ''1.0'')"

definition example_kept :: block where
  "example_kept = next_block example_lib ''ALERT'' (PStr ''second'') example_genesis (PyFloat 2 ''2.0'')"

definition example_hot :: reading where
  "example_hot =
     \<lparr>lat = PyFloat 12.97 ''12.97'', lon = PyFloat 77.59 ''77.59'', temp = PyFloat 35 ''35.0'',
      humidity = PyFloat 40 ''40.0'', pressure = PyFloat 1008 ''1008.0'', tamper = False\<rparr>"

definition example_normal :: reading where
  "example_normal = example_hot\<lparr>temp := PyFloat 20 ''20.0''\<rparr>"

definition example_thread :: thread where
  "example_thread =
     \<lparr>thread_shipment_ids = [''SHIP-SIM-1''], thread_interval = PyFloat 2 ''2.0'',
      is_alive = True\<rparr>"

definition example_running :: world where
  "example_running = example_world\<lparr>sim_thread := Some example_thread, sim_stop_event := True\<rparr>"

section \<open>Properties of the chain\<close>


lemma add_block_load_present:
  "ledger w \<noteq> Missing \<Longrightarrow>
   add_block_load L w =
     (case ledger w of
        Missing \<Rightarrow> (Inl FileNotFoundError, w)
      | Torn \<Rightarrow>
          if fault w = OpenFails \<or> fault w = ReadFails then (Inl OSError, w)
          else (Inl JSONDecodeError, w)
      | Stored chain \<Rightarrow>
          if fault w = OpenFails \<or> fault w = ReadFails then (Inl OSError, w)
          else (Inr chain, w))"
  by (simp add: add_block_load_def)

lemma init_ledger_missing:
  "ledger w = Missing \<Longrightarrow>
   init_ledger L w =
     (if fault w = OpenFails then (Inl OSError, w\<lparr>reads := Suc (reads w)\<rparr>)
      else if fault w = WriteFails
      then (Inl OSError, w\<lparr>reads := Suc (reads w), ledger := Torn\<rparr>)
      else (Inr (), w\<lparr>reads := Suc (reads w),
                      ledger := Stored [genesis_block L (time_src w (reads w))]\<rparr>))"
  by (simp add: init_ledger_def time_time_def genesis_block_def)

lemma add_block_load_missing:
  "ledger w = Missing \<Longrightarrow>
   add_block_load L w =
     (if fault w = OpenFails then (Inl OSError, w\<lparr>reads := Suc (reads w)\<rparr>)
      else if fault w = WriteFails
      then (Inl OSError, w\<lparr>reads := Suc (reads w), ledger := Torn\<rparr>)
      else if fault w = ReadFails
      then (Inl OSError, w\<lparr>reads := Suc (reads w),
                           ledger := Stored [genesis_block L (time_src w (reads w))]\<rparr>)
      else (Inr [genesis_block L (time_src w (reads w))],
            w\<lparr>reads := Suc (reads w),
              ledger := Stored [genesis_block L (time_src w (reads w))]\<rparr>))"
  by (simp add: add_block_load_def init_ledger_missing)

lemma contiguous_from_append:
  "contiguous_from k (xs @ [b]) = (contiguous_from k xs \<and> index b = k + int (length xs))"
proof (induction xs arbitrary: k)
  case Nil
  show ?case by simp
next
  case (Cons a xs)
  have e: "k + 1 + int (length xs) = k + int (length (a # xs))" by simp
  show ?case
    unfolding append_Cons contiguous_from.simps Cons.IH e by blast
qed

lemma contiguous_from_last:
  "xs \<noteq> [] \<Longrightarrow> contiguous_from k xs \<Longrightarrow> index (last xs) = k + int (length xs) - 1"
  by (induction xs arbitrary: k) auto

lemma linked_append:
  "xs \<noteq> [] \<Longrightarrow> linked (xs @ [b]) = (linked xs \<and> prev_hash b = hash (last xs))"
  by (induction xs rule: linked.induct) auto


lemma add_block_store_eq:
  "chain \<noteq> [] \<Longrightarrow>
   add_block_store L ev p chain w =
     (if fault w = WriteFails
      then (Inl OSError, w\<lparr>reads := Suc (reads w), ledger := Torn\<rparr>)
      else (Inr (next_block L ev p (last chain) (time_src w (reads w))),
            w\<lparr>reads := Suc (reads w),
              ledger := Stored (chain @ [next_block L ev p (last chain) (time_src w (reads w))])\<rparr>))"
  by (simp add: add_block_store_def time_time_def Let_def next_block_def)




lemma add_block_stored:
  assumes "ledger w = Stored chain" and "chain \<noteq> []" and "fault w = NoFault"
  shows "add_block L ev p w =
     (Inr (next_block L ev p (last chain) (time_src w (reads w))),
      w\<lparr>reads := Suc (reads w),
        ledger := Stored (chain @ [next_block L ev p (last chain) (time_src w (reads w))])\<rparr>)"
proof -
  have "add_block_load L w = (Inr chain, w)"
    using assms by (simp add: add_block_load_present)
  then show ?thesis
    using assms by (simp add: add_block_def add_block_store_eq)
qed

lemma add_block_missing:
  assumes "ledger w = Missing" and "fault w = NoFault"
  shows "add_block L ev p w =
     (Inr (next_block L ev p (genesis_block L (time_src w (reads w)))
             (time_src w (Suc (reads w)))),
      w\<lparr>reads := Suc (Suc (reads w)),
        ledger := Stored [genesis_block L (time_src w (reads w)),
                          next_block L ev p (genesis_block L (time_src w (reads w)))
                            (time_src w (Suc (reads w)))]\<rparr>)"
proof -
  have "add_block_load L w =
          (Inr [genesis_block L (time_src w (reads w))],
           w\<lparr>reads := Suc (reads w),
             ledger := Stored [genesis_block L (time_src w (reads w))]\<rparr>)"
    using assms by (simp add: add_block_load_missing)
  then show ?thesis
    using assms by (simp add: add_block_def add_block_store_eq)
qed









lemma str_nat_0: "str_nat 0 = ''0''"
  by (simp add: str_nat.simps digit_char_def)

lemma str_nat_1: "str_nat (Suc 0) = ''1''"
  by (simp add: str_nat.simps digit_char_def)

lemma example_init: "init_ledger example_lib example_world = (Inr (), example_started)"
  by (simp add: init_ledger_missing example_world_def example_started_def example_genesis_def
      str_nat_0)

lemma example_started_simps:
  "ledger example_started = Stored [example_genesis]" "fault example_started = NoFault"
  "reads example_started = 1" "time_src example_started 1 = PyFloat 1 ''1.0''"
  by (simp_all add: example_started_def example_world_def str_nat_1)

lemma example_append:
  "add_block example_lib ''REGISTER_BATCH'' example_payload example_started
     = (Inr example_block, example_appended)"
proof -
  have t: "time_src example_world (Suc 0) = PyFloat 1 ''1.0''"
    by (simp add: example_world_def str_nat_1)
  show ?thesis
    by (simp add: add_block_stored [OF example_started_simps(1) _ example_started_simps(2)]
        example_started_simps example_block_def)
      (simp add: example_started_def example_appended_def example_block_def t numeral_2_eq_2)
qed



lemma contiguous_from_nth:
  "contiguous_from k xs = (\<forall>i<length xs. index (xs ! i) = k + int i)"
proof (induction xs arbitrary: k)
  case Nil
  show ?case by simp
next
  case (Cons b bs)
  have "(\<forall>i<length (b # bs). index ((b # bs) ! i) = k + int i)
        = (index b = k \<and> (\<forall>i<length bs. index (bs ! i) = k + 1 + int i))"
    (is "?A = ?B")
  proof
    assume a: ?A
    then have "index ((b # bs) ! 0) = k + int 0" by (metis length_greater_0_conv list.distinct(1))
    then have "index b = k" by simp
    moreover have "\<forall>i<length bs. index (bs ! i) = k + 1 + int i"
    proof (intro allI impI)
      fix i assume "i < length bs"
      then have "Suc i < length (b # bs)" by simp
      with a have "index ((b # bs) ! Suc i) = k + int (Suc i)" by blast
      then show "index (bs ! i) = k + 1 + int i" by simp
    qed
    ultimately show ?B by blast
  next
    assume b: ?B
    show ?A
    proof (intro allI impI)
      fix i assume "i < length (b # bs)"
      show "index ((b # bs) ! i) = k + int i"
      proof (cases i)
        case 0
        with b show ?thesis by simp
      next
        case (Suc j)
        with \<open>i < length (b # bs)\<close> have "j < length bs" by simp
        with b have "index (bs ! j) = k + 1 + int j" by blast
        with Suc show ?thesis by simp
      qed
    qed
  qed
  then show ?case
    unfolding contiguous_from.simps Cons.IH by blast
qed

lemma linked_nth:
  "linked xs = (\<forall>i. 0 < i \<and> i < length xs \<longrightarrow> prev_hash (xs ! i) = hash (xs ! (i - 1)))"
proof (induction xs rule: linked.induct)
  case (1 a b bs)
  have "(\<forall>i. 0 < i \<and> i < length (a # b # bs) \<longrightarrow>
            prev_hash ((a # b # bs) ! i) = hash ((a # b # bs) ! (i - 1)))
      = (prev_hash b = hash a \<and>
         (\<forall>i. 0 < i \<and> i < length (b # bs) \<longrightarrow>
            prev_hash ((b # bs) ! i) = hash ((b # bs) ! (i - 1))))"
    (is "?A = ?B")
  proof
    assume a: ?A
    have "0 < Suc 0 \<and> Suc 0 < length (a # b # bs)" by simp
    with a have "prev_hash ((a # b # bs) ! Suc 0) = hash ((a # b # bs) ! (Suc 0 - 1))" by blast
    then have h: "prev_hash b = hash a" by simp
    have "\<forall>i. 0 < i \<and> i < length (b # bs) \<longrightarrow>
            prev_hash ((b # bs) ! i) = hash ((b # bs) ! (i - 1))"
    proof (intro allI impI)
      fix i assume i: "0 < i \<and> i < length (b # bs)"
      then have "0 < Suc i \<and> Suc i < length (a # b # bs)" by simp
      with a have "prev_hash ((a # b # bs) ! Suc i) = hash ((a # b # bs) ! (Suc i - 1))"
        by blast
      with i show "prev_hash ((b # bs) ! i) = hash ((b # bs) ! (i - 1))"
        by (cases i) simp_all
    qed
    with h show ?B by blast
  next
    assume b: ?B
    show ?A
    proof (intro allI impI)
      fix i assume i: "0 < i \<and> i < length (a # b # bs)"
      then obtain j where j: "i = Suc j" by (cases i) auto
      show "prev_hash ((a # b # bs) ! i) = hash ((a # b # bs) ! (i - 1))"
      proof (cases j)
        case 0
        with j b show ?thesis by simp
      next
        case (Suc m)
        with i j have "0 < j \<and> j < length (b # bs)" by simp
        with b have "prev_hash ((b # bs) ! j) = hash ((b # bs) ! (j - 1))" by blast
        with j Suc show ?thesis by simp
      qed
    qed
  qed
  then show ?case
    unfolding linked.simps(1) "1.IH" by blast
qed simp_all

lemma next_block_simps:
  "index (next_block L ev p lst t) = index lst + 1"
  "timestamp (next_block L ev p lst t) = t"
  "prev_hash (next_block L ev p lst t) = hash lst"
  "data (next_block L ev p lst t) = PDict [(''event'', PStr ev), (''payload'', p)]"
  by (simp_all add: next_block_def)

lemma genesis_block_simps:
  "index (genesis_block L t) = 0"
  "timestamp (genesis_block L t) = t"
  "prev_hash (genesis_block L t) = replicate 64 CHR ''0''"
  "data (genesis_block L t) = PDict [(''genesis'', PBool True)]"
  "hash (genesis_block L t) = sha256_hexdigest L (json_dumps L (PDict [(''genesis'', PBool True)]))"
  by (simp_all add: genesis_block_def genesis_data_def)

text \<open>
  C2. On a stored, non-empty chain and without a storage failure, \<open>add_block\<close> extends the
  chain by exactly one block at the tail; the index of the new block is the index of the
  previous tail plus 1 and its prev_hash is the hash of the previous tail; every block
  written before stays as it was, so contiguity (\<open>chain[i].index == i\<close>) and linkage are
  preserved.
\<close>

theorem append_extends_chain:
  assumes "ledger w = Stored chain" and "chain \<noteq> []" and "fault w = NoFault"
  shows "\<exists>b w'. add_block L event_type payload w = (Inr b, w')
          \<and> ledger w' = Stored (chain @ [b])
          \<and> index b = index (last chain) + 1
          \<and> prev_hash b = hash (last chain)
          \<and> (\<forall>i<length chain. (chain @ [b]) ! i = chain ! i)
          \<and> ((\<forall>i<length chain. index (chain ! i) = int i) \<longrightarrow>
               (\<forall>i<length (chain @ [b]). index ((chain @ [b]) ! i) = int i))
          \<and> ((\<forall>i. 0 < i \<and> i < length chain \<longrightarrow>
                    prev_hash (chain ! i) = hash (chain ! (i - 1))) \<longrightarrow>
               (\<forall>i. 0 < i \<and> i < length (chain @ [b]) \<longrightarrow>
                    prev_hash ((chain @ [b]) ! i) = hash ((chain @ [b]) ! (i - 1))))"
proof -
  define b where "b = next_block L event_type payload (last chain) (time_src w (reads w))"
  define w' where "w' = w\<lparr>reads := Suc (reads w), ledger := Stored (chain @ [b])\<rparr>"
  have r: "add_block L event_type payload w = (Inr b, w')"
    unfolding b_def w'_def by (rule add_block_stored [OF assms])
  have l: "ledger w' = Stored (chain @ [b])" by (simp add: w'_def)
  have i: "index b = index (last chain) + 1" and p: "prev_hash b = hash (last chain)"
    by (simp_all add: b_def next_block_simps)
  have old: "\<forall>i<length chain. (chain @ [b]) ! i = chain ! i"
    by (simp add: nth_append)
  have c: "(\<forall>i<length chain. index (chain ! i) = int i) \<longrightarrow>
           (\<forall>i<length (chain @ [b]). index ((chain @ [b]) ! i) = int i)"
  proof
    assume "\<forall>i<length chain. index (chain ! i) = int i"
    then have cf: "contiguous_from 0 chain" by (simp add: contiguous_from_nth)
    with assms(2) have "index (last chain) = int (length chain) - 1"
      using contiguous_from_last [of chain 0] by simp
    with i cf have "contiguous_from 0 (chain @ [b])" by (simp add: contiguous_from_append)
    then show "\<forall>i<length (chain @ [b]). index ((chain @ [b]) ! i) = int i"
      by (simp only: contiguous_from_nth) simp
  qed
  have k: "(\<forall>i. 0 < i \<and> i < length chain \<longrightarrow>
                prev_hash (chain ! i) = hash (chain ! (i - 1))) \<longrightarrow>
           (\<forall>i. 0 < i \<and> i < length (chain @ [b]) \<longrightarrow>
                prev_hash ((chain @ [b]) ! i) = hash ((chain @ [b]) ! (i - 1)))"
  proof
    assume "\<forall>i. 0 < i \<and> i < length chain \<longrightarrow> prev_hash (chain ! i) = hash (chain ! (i - 1))"
    then have "linked chain" by (simp only: linked_nth)
    with p assms(2) have "linked (chain @ [b])" by (simp add: linked_append)
    then show "\<forall>i. 0 < i \<and> i < length (chain @ [b]) \<longrightarrow>
                prev_hash ((chain @ [b]) ! i) = hash ((chain @ [b]) ! (i - 1))"
      by (simp only: linked_nth)
  qed
  from r l i p old c k show ?thesis by blast
qed

theorem append_extends_chain_witness:
  "ledger example_started = Stored [example_genesis] \<and> [example_genesis] \<noteq> []
   \<and> fault example_started = NoFault
   \<and> add_block example_lib ''REGISTER_BATCH'' example_payload example_started
       = (Inr example_block, example_appended)
   \<and> ledger example_appended = Stored ([example_genesis] @ [example_block])
   \<and> index example_block = index (last [example_genesis]) + 1
   \<and> prev_hash example_block = hash (last [example_genesis])"
proof -
  have ne: "[example_genesis] \<noteq> []" by simp
  from append_extends_chain [OF example_started_simps(1) ne example_started_simps(2),
      of example_lib "''REGISTER_BATCH''" example_payload]
  obtain b w' where "add_block example_lib ''REGISTER_BATCH'' example_payload example_started
        = (Inr b, w')"
    and "ledger w' = Stored ([example_genesis] @ [b])"
    and "index b = index (last [example_genesis]) + 1"
    and "prev_hash b = hash (last [example_genesis])"
    by blast
  then show ?thesis
    by (simp add: example_append example_started_simps)
qed

text \<open>
  C7. For every event type and payload, \<open>add_block\<close> returns a block whose data is the
  dictionary holding the event type (under the key event) and the payload, and the block
  returned is the tail of the chain now in the file. The file is absent or holds a
  non-empty chain, and storage does not fail.
\<close>

theorem append_returns_tail:
  assumes "fault w = NoFault" and "ledger w \<noteq> Torn" and "ledger w \<noteq> Stored []"
  shows "\<exists>b w' chain. add_block L event_type payload w = (Inr b, w')
          \<and> data b = PDict [(''event'', PStr event_type), (''payload'', payload)]
          \<and> ledger w' = Stored chain \<and> chain \<noteq> [] \<and> last chain = b"
proof (cases "ledger w")
  case Missing
  from add_block_missing [OF Missing assms(1), of L event_type payload]
  show ?thesis by (simp add: next_block_simps)
next
  case (Stored c)
  with assms(3) have ne: "c \<noteq> []" by simp
  from add_block_stored [OF Stored ne assms(1), of L event_type payload]
  show ?thesis by (simp add: next_block_simps)
next
  case Torn
  with assms(2) show ?thesis by simp
qed

theorem append_returns_tail_witness:
  "fault example_started = NoFault \<and> ledger example_started \<noteq> Torn
   \<and> ledger example_started \<noteq> Stored []
   \<and> add_block example_lib ''REGISTER_BATCH'' example_payload example_started
       = (Inr example_block, example_appended)
   \<and> data example_block = PDict [(''event'', PStr ''REGISTER_BATCH''), (''payload'', example_payload)]
   \<and> ledger example_appended = Stored [example_genesis, example_block]
   \<and> last [example_genesis, example_block] = example_block"
proof -
  have a: "ledger example_started \<noteq> Torn" and b: "ledger example_started \<noteq> Stored []"
    by (simp_all add: example_started_simps)
  from append_returns_tail [OF example_started_simps(2) a b,
      of example_lib "''REGISTER_BATCH''" example_payload]
  obtain blk w' chain where
    "add_block example_lib ''REGISTER_BATCH'' example_payload example_started = (Inr blk, w')"
    and "data blk = PDict [(''event'', PStr ''REGISTER_BATCH''), (''payload'', example_payload)]"
    and "ledger w' = Stored chain" and "last chain = blk"
    by blast
  then show ?thesis
    using a b by (auto simp: example_append example_started_simps example_appended_def)
qed

text \<open>
  C10. The hash of the genesis block does not depend on the time of creation: two runs of
  \<open>init_ledger\<close> on an absent file give genesis blocks with the same hash, prev_hash, data
  and index, whatever their clocks read; only the timestamps follow the clocks.
\<close>

theorem genesis_hash_time_independent:
  assumes "ledger w1 = Missing" and "fault w1 = NoFault"
    and "ledger w2 = Missing" and "fault w2 = NoFault"
  shows "\<exists>g1 g2. ledger (snd (init_ledger L w1)) = Stored [g1]
          \<and> ledger (snd (init_ledger L w2)) = Stored [g2]
          \<and> hash g1 = hash g2 \<and> prev_hash g1 = prev_hash g2 \<and> data g1 = data g2
          \<and> index g1 = index g2
          \<and> hash g1 = sha256_hexdigest L (json_dumps L (PDict [(''genesis'', PBool True)]))
          \<and> timestamp g1 = time_src w1 (reads w1)
          \<and> timestamp g2 = time_src w2 (reads w2)"
proof -
  have "ledger (snd (init_ledger L w1)) = Stored [genesis_block L (time_src w1 (reads w1))]"
    using assms(1,2) by (simp add: init_ledger_missing)
  moreover
  have "ledger (snd (init_ledger L w2)) = Stored [genesis_block L (time_src w2 (reads w2))]"
    using assms(3,4) by (simp add: init_ledger_missing)
  ultimately show ?thesis
    by (simp add: genesis_block_simps)
qed

theorem genesis_hash_time_independent_witness:
  "ledger example_world = Missing \<and> fault example_world = NoFault
   \<and> ledger example_later = Missing \<and> fault example_later = NoFault
   \<and> (\<exists>g1 g2. ledger (snd (init_ledger example_lib example_world)) = Stored [g1]
          \<and> ledger (snd (init_ledger example_lib example_later)) = Stored [g2]
          \<and> hash g1 = hash g2 \<and> prev_hash g1 = prev_hash g2 \<and> data g1 = data g2
          \<and> timestamp g1 = PyFloat 0 ''0.0''
          \<and> timestamp g2 = PyFloat 1700000000.5 ''1700000000.5''
          \<and> timestamp g1 \<noteq> timestamp g2)"
proof -
  have a: "ledger example_world = Missing" "fault example_world = NoFault"
    "ledger example_later = Missing" "fault example_later = NoFault"
    by (simp_all add: example_world_def example_later_def)
  have t: "time_src example_world (reads example_world) = PyFloat 0 ''0.0''"
    "time_src example_later (reads example_later) = PyFloat 1700000000.5 ''1700000000.5''"
    by (simp_all add: example_world_def example_later_def str_nat_0)
  from genesis_hash_time_independent [OF a, of example_lib]
  obtain g1 g2 where "ledger (snd (init_ledger example_lib example_world)) = Stored [g1]"
    and "ledger (snd (init_ledger example_lib example_later)) = Stored [g2]"
    and "hash g1 = hash g2" and "prev_hash g1 = prev_hash g2" and "data g1 = data g2"
    and "timestamp g1 = time_src example_world (reads example_world)"
    and "timestamp g2 = time_src example_later (reads example_later)"
    by blast
  with t have "ledger (snd (init_ledger example_lib example_world)) = Stored [g1]
          \<and> ledger (snd (init_ledger example_lib example_later)) = Stored [g2]
          \<and> hash g1 = hash g2 \<and> prev_hash g1 = prev_hash g2 \<and> data g1 = data g2
          \<and> timestamp g1 = PyFloat 0 ''0.0''
          \<and> timestamp g2 = PyFloat 1700000000.5 ''1700000000.5''
          \<and> timestamp g1 \<noteq> timestamp g2"
    by simp
  with a show ?thesis by blast
qed

lemma py_slice_from_positive:
  assumes "0 < limit"
  shows "py_slice_from xs (- limit) = drop (length xs - nat limit) xs"
proof -
  have "nat (max 0 (int (length xs) - limit)) = length xs - nat limit"
    using assms by arith
  with assms show ?thesis by (simp add: py_slice_from_def)
qed

lemma py_slice_from_zero: "py_slice_from xs (- 0) = xs"
  by (simp add: py_slice_from_def)

lemma py_slice_from_negative:
  assumes "limit < 0"
  shows "py_slice_from xs (- limit) = drop (nat (- limit)) xs"
proof -
  have "nat (min (- limit) (int (length xs))) = min (nat (- limit)) (length xs)"
    using assms by arith
  moreover have "drop (min (nat (- limit)) (length xs)) xs = drop (nat (- limit)) xs"
    by (cases "nat (- limit) \<le> length xs") (simp_all add: min_def)
  ultimately show ?thesis using assms by (simp add: py_slice_from_def)
qed

text \<open>For a positive limit the read is right: the last \<open>limit\<close> blocks, in chain order.\<close>

lemma api_ledger_positive:
  assumes "ledger w = Stored chain" and "fault w = NoFault" and "0 < limit"
  shows "\<exists>window. api_ledger limit w = (Inr window, w)
          \<and> window = drop (length chain - nat limit) chain
          \<and> int (length window) \<le> limit"
proof -
  have "int (length (drop (length chain - nat limit) chain)) \<le> limit"
    using assms(3) by simp
  with assms show ?thesis
    by (simp add: api_ledger_def py_slice_from_positive)
qed

text \<open>
  C5. The read \<open>api_ledger\<close> returns \<open>chain[-limit:]\<close>. With limit 0 the slice is the whole
  chain: on the chain of the genesis block alone it returns one block, which is more than
  0 blocks.
\<close>

theorem read_limit_zero_returns_all:
  "api_ledger 0 example_started = (Inr [example_genesis], example_started)
   \<and> \<not> int (length [example_genesis]) \<le> 0"
  by (simp add: api_ledger_def example_started_simps py_slice_from_def)

text \<open>
  C6, as stated, fails for the read: on an absent file \<open>api_ledger\<close> returns the empty chain
  and creates nothing.
\<close>

theorem read_fresh_store_is_empty:
  "ledger example_world = Missing
   \<and> api_ledger 50 example_world = (Inr [], example_world)"
  by (simp add: api_ledger_def example_world_def)

text \<open>
  C6, amended. On an absent file \<open>api_ledger\<close> returns the empty chain and leaves the file
  absent; \<open>add_block\<close> first writes the genesis block and then appends; and once
  \<open>init_ledger\<close> has run (as it does at startup), the read with limit 50 returns exactly
  one block, of index 0, data \<open>{genesis: True}\<close> and a prev_hash of 64 zero characters.
\<close>

theorem bootstrap:
  assumes "ledger w = Missing" and "fault w = NoFault"
  shows "api_ledger limit w = (Inr [], w)
       \<and> (\<exists>g b w'. add_block L event_type payload w = (Inr b, w')
             \<and> ledger w' = Stored [g, b]
             \<and> index g = 0 \<and> data g = PDict [(''genesis'', PBool True)]
             \<and> prev_hash g = replicate 64 CHR ''0'')
       \<and> (\<exists>g w'. init_ledger L w = (Inr (), w')
             \<and> api_ledger 50 w' = (Inr [g], w')
             \<and> index g = 0 \<and> data g = PDict [(''genesis'', PBool True)]
             \<and> prev_hash g = replicate 64 CHR ''0'')"
proof -
  have a: "api_ledger limit w = (Inr [], w)"
    using assms(1) by (simp add: api_ledger_def)
  have b: "\<exists>g b w'. add_block L event_type payload w = (Inr b, w')
             \<and> ledger w' = Stored [g, b]
             \<and> index g = 0 \<and> data g = PDict [(''genesis'', PBool True)]
             \<and> prev_hash g = replicate 64 CHR ''0''"
    using add_block_missing [OF assms, of L event_type payload]
    by (simp add: genesis_block_simps)
  define g where "g = genesis_block L (time_src w (reads w))"
  define w' where "w' = w\<lparr>reads := Suc (reads w), ledger := Stored [g]\<rparr>"
  have i: "init_ledger L w = (Inr (), w')"
    using assms by (simp add: init_ledger_missing w'_def g_def)
  have "api_ledger 50 w' = (Inr [g], w')"
    using assms(2) by (simp add: api_ledger_def w'_def py_slice_from_def)
  with i have c: "\<exists>g w'. init_ledger L w = (Inr (), w')
             \<and> api_ledger 50 w' = (Inr [g], w')
             \<and> index g = 0 \<and> data g = PDict [(''genesis'', PBool True)]
             \<and> prev_hash g = replicate 64 CHR ''0''"
    using genesis_block_simps [of L "time_src w (reads w)"] unfolding g_def by blast
  from a b c show ?thesis by blast
qed

theorem bootstrap_witness:
  "ledger example_world = Missing \<and> fault example_world = NoFault
   \<and> api_ledger 50 example_world = (Inr [], example_world)
   \<and> init_ledger example_lib example_world = (Inr (), example_started)
   \<and> api_ledger 50 example_started = (Inr [example_genesis], example_started)
   \<and> index example_genesis = 0
   \<and> prev_hash example_genesis = replicate 64 CHR ''0''"
proof -
  have a: "ledger example_world = Missing" "fault example_world = NoFault"
    by (simp_all add: example_world_def)
  from bootstrap [OF a, of 50 example_lib "''X''" PNone]
  obtain g w' where "api_ledger 50 example_world = (Inr [], example_world)"
    and "init_ledger example_lib example_world = (Inr (), w')"
    and "api_ledger 50 w' = (Inr [g], w')" and "index g = 0"
    and "prev_hash g = replicate 64 CHR ''0''"
    by blast
  then show ?thesis
    using a by (auto simp: example_init api_ledger_def example_started_simps py_slice_from_def)
qed

text \<open>
  C4, as stated, fails: \<open>add_block\<close> writes the new text over the file in place. When the
  write fails part-way the call raises, and the file no longer holds the chain it held.
\<close>

theorem append_write_failure_tears:
  "ledger example_failing = Stored [example_genesis]
   \<and> fst (add_block example_lib ''ALERT'' PNone example_failing) = Inl OSError
   \<and> ledger (snd (add_block example_lib ''ALERT'' PNone example_failing)) = Torn"
proof -
  have l: "ledger example_failing = Stored [example_genesis]"
    and f: "fault example_failing = WriteFails"
    by (simp_all add: example_failing_def example_started_simps)
  have "add_block_load example_lib example_failing = (Inr [example_genesis], example_failing)"
    using l f by (simp add: add_block_load_present)
  then show ?thesis
    using l f by (simp add: add_block_def add_block_store_eq)
qed

text \<open>
  C4, amended. Every storage failure during \<open>add_block\<close> on a stored chain reaches the
  caller as an error, and a failure of opening or reading leaves the file as it was.
\<close>

theorem append_failure_surfaces:
  assumes "ledger w = Stored chain" and "fault w \<noteq> NoFault"
  shows "\<exists>e w'. add_block L event_type payload w = (Inl e, w')
          \<and> (fault w \<noteq> WriteFails \<longrightarrow> ledger w' = ledger w)"
proof (cases "fault w = WriteFails")
  case True
  with assms(1) have ld: "add_block_load L w = (Inr chain, w)"
    by (simp add: add_block_load_present)
  show ?thesis
  proof (cases "chain = []")
    case e: True
    with ld True show ?thesis by (simp add: add_block_def add_block_store_def)
  next
    case False
    with ld True show ?thesis by (simp add: add_block_def add_block_store_eq)
  qed
next
  case False
  with assms(2) have "fault w = OpenFails \<or> fault w = ReadFails" by (cases "fault w") simp_all
  with assms(1) have "add_block_load L w = (Inl OSError, w)"
    by (auto simp: add_block_load_present)
  then show ?thesis by (simp add: add_block_def)
qed

theorem append_failure_surfaces_witness:
  "ledger example_failing = Stored [example_genesis] \<and> fault example_failing \<noteq> NoFault
   \<and> (\<exists>e w'. add_block example_lib ''ALERT'' PNone example_failing = (Inl e, w'))
   \<and> ledger (example_started\<lparr>fault := ReadFails\<rparr>) = Stored [example_genesis]
   \<and> fault (example_started\<lparr>fault := ReadFails\<rparr>) \<noteq> NoFault
   \<and> fault (example_started\<lparr>fault := ReadFails\<rparr>) \<noteq> WriteFails
   \<and> (\<exists>e w'. add_block example_lib ''ALERT'' PNone (example_started\<lparr>fault := ReadFails\<rparr>)
                = (Inl e, w')
          \<and> ledger w' = Stored [example_genesis])"
proof -
  have l: "ledger example_failing = Stored [example_genesis]"
    and f: "fault example_failing \<noteq> NoFault"
    by (simp_all add: example_failing_def example_started_simps)
  have l2: "ledger (example_started\<lparr>fault := ReadFails\<rparr>) = Stored [example_genesis]"
    and f2: "fault (example_started\<lparr>fault := ReadFails\<rparr>) \<noteq> NoFault"
    and g2: "fault (example_started\<lparr>fault := ReadFails\<rparr>) \<noteq> WriteFails"
    by (simp_all add: example_started_simps)
  from append_failure_surfaces [OF l f, of example_lib "''ALERT''" PNone]
  have a: "\<exists>e w'. add_block example_lib ''ALERT'' PNone example_failing = (Inl e, w')"
    by blast
  from append_failure_surfaces [OF l2 f2, of example_lib "''ALERT''" PNone] g2 l2
  have b: "\<exists>e w'. add_block example_lib ''ALERT'' PNone (example_started\<lparr>fault := ReadFails\<rparr>)
                = (Inl e, w')
          \<and> ledger w' = Stored [example_genesis]"
    by auto
  from l f l2 f2 g2 a b show ?thesis by blast
qed

lemma str_nat_2: "str_nat 2 = ''2''"
  by (simp add: str_nat.simps digit_char_def)

lemma example_time:
  "time_src example_started = time_src example_world"
  "time_src example_world (Suc 0) = PyFloat 1 ''1.0''"
  "time_src example_world (Suc (Suc 0)) = PyFloat 2 ''2.0''"
  by (simp_all add: example_started_def example_world_def str_nat_1 str_nat_2
      flip: numeral_2_eq_2)

lemma interleave_serial:
  assumes "loaded i = None"
  shows "interleave L calls (Load i # Store i # s) loaded w
       = interleave L calls s loaded (snd (add_block L (fst (calls i)) (snd (calls i)) w))"
proof (cases "add_block_load L w")
  case (Pair r w1)
  show ?thesis
  proof (cases r)
    case (Inl e)
    with Pair assms show ?thesis by (simp add: add_block_def)
  next
    case (Inr chain)
    have "(loaded(i \<mapsto> chain))(i := None) = loaded"
      using assms by (simp add: fun_upd_idem)
    with Pair Inr show ?thesis by (simp add: add_block_def)
  qed
qed

text \<open>
  C3, as stated, fails: \<open>add_block\<close> takes no lock. When two calls both load the chain before
  either writes, the second write replaces the first: after two appends the chain holds
  one new block only.
\<close>

theorem append_lost_update:
  "ledger example_started = Stored [example_genesis]
   \<and> fst (add_block_store example_lib ''ALERT'' (PStr ''first'') [example_genesis] example_started)
       = Inr example_lost
   \<and> index example_lost = 1 \<and> index example_kept = 1
   \<and> ledger (interleave example_lib example_calls [Load 0, Load 1, Store 0, Store 1]
               (\<lambda>i. None) example_started)
       = Stored [example_genesis, example_kept]"
proof -
  have i: "index example_lost = 1" "index example_kept = 1"
    by (simp_all add: example_lost_def example_kept_def next_block_simps example_genesis_def
        genesis_block_simps)
  have s: "fst (add_block_store example_lib ''ALERT'' (PStr ''first'') [example_genesis]
             example_started) = Inr example_lost"
    by (simp add: add_block_store_eq example_started_simps(1-3) example_lost_def example_time)
  have "ledger (interleave example_lib example_calls [Load 0, Load 1, Store 0, Store 1]
               (\<lambda>i. None) example_started)
       = Stored [example_genesis, example_kept]"
    by (simp add: add_block_load_present example_started_simps(1-3) add_block_store_eq
        example_calls_def example_kept_def example_time)
  with i s show ?thesis by (simp add: example_started_simps)
qed

lemma contiguous_from_distinct:
  assumes "contiguous_from k xs"
  shows "distinct (map index xs)"
proof -
  from assms have n: "\<forall>i<length xs. index (xs ! i) = k + int i"
    by (simp only: contiguous_from_nth)
  show ?thesis
  proof (simp only: distinct_conv_nth length_map, intro allI impI)
    fix i j assume i: "i < length xs" and j: "j < length xs" and ne: "i \<noteq> j"
    from n i j have "index (xs ! i) = k + int i" "index (xs ! j) = k + int j" by blast+
    with ne i j show "map index xs ! i \<noteq> map index xs ! j" by simp
  qed
qed

lemma add_blocks_stored:
  assumes "ledger w = Stored chain" and "chain \<noteq> []" and "fault w = NoFault"
    and "contiguous_from 0 chain"
  shows "\<exists>new. ledger (add_blocks L calls w) = Stored (chain @ new)
          \<and> length new = length calls \<and> contiguous_from 0 (chain @ new)"
  using assms
proof (induction calls arbitrary: w chain)
  case Nil
  then show ?case by simp
next
  case (Cons c calls)
  obtain ev p where c: "c = (ev, p)" by (cases c)
  define b where "b = next_block L ev p (last chain) (time_src w (reads w))"
  define w1 where "w1 = snd (add_block L ev p w)"
  have w1: "ledger w1 = Stored (chain @ [b])" "fault w1 = NoFault"
    unfolding w1_def b_def
    using Cons.prems(3) by (simp_all add: add_block_stored [OF Cons.prems(1-3)])
  from Cons.prems(2,4) have "index (last chain) = int (length chain) - 1"
    using contiguous_from_last [of chain 0] by simp
  with Cons.prems(4) have cf: "contiguous_from 0 (chain @ [b])"
    by (simp add: contiguous_from_append b_def next_block_simps)
  have ne: "chain @ [b] \<noteq> []" by simp
  from Cons.IH [OF w1(1) ne w1(2) cf]
  obtain new where "ledger (add_blocks L calls w1) = Stored ((chain @ [b]) @ new)"
    and "length new = length calls" and "contiguous_from 0 ((chain @ [b]) @ new)"
    by blast
  then have "ledger (add_blocks L (c # calls) w) = Stored (chain @ (b # new))
          \<and> length (b # new) = length (c # calls) \<and> contiguous_from 0 (chain @ (b # new))"
    by (simp add: c w1_def)
  then show ?case by blast
qed

text \<open>
  C3, amended. Appends that do not overlap (each returns before the next starts) extend a
  stored, non-empty, contiguous chain by exactly one block per call, with contiguous
  indices, no two blocks sharing an index.
\<close>

theorem sequential_appends:
  assumes "ledger w = Stored chain" and "chain \<noteq> []" and "fault w = NoFault"
    and "\<forall>i<length chain. index (chain ! i) = int i"
  shows "\<exists>new. ledger (add_blocks L calls w) = Stored (chain @ new)
          \<and> length new = length calls
          \<and> (\<forall>i<length (chain @ new). index ((chain @ new) ! i) = int i)
          \<and> distinct (map index (chain @ new))"
proof -
  from assms(4) have "contiguous_from 0 chain" by (simp add: contiguous_from_nth)
  from add_blocks_stored [OF assms(1-3) this, of L calls]
  obtain new where l: "ledger (add_blocks L calls w) = Stored (chain @ new)"
    and n: "length new = length calls" and c: "contiguous_from 0 (chain @ new)"
    by blast
  from c have "\<forall>i<length (chain @ new). index ((chain @ new) ! i) = int i"
    by (simp only: contiguous_from_nth) simp
  with l n contiguous_from_distinct [OF c] show ?thesis by blast
qed

theorem sequential_appends_witness:
  "ledger example_started = Stored [example_genesis] \<and> [example_genesis] \<noteq> []
   \<and> fault example_started = NoFault
   \<and> index ([example_genesis] ! 0) = int 0
   \<and> (\<exists>new. ledger (add_blocks example_lib [example_calls 0, example_calls 1] example_started)
               = Stored ([example_genesis] @ new)
          \<and> length new = 2
          \<and> distinct (map index ([example_genesis] @ new)))"
proof -
  have ne: "[example_genesis] \<noteq> []" by simp
  have c: "\<forall>i<length [example_genesis]. index ([example_genesis] ! i) = int i"
    by (simp add: example_genesis_def genesis_block_simps)
  from sequential_appends [OF example_started_simps(1) ne example_started_simps(2) c,
      of example_lib "[example_calls 0, example_calls 1]"]
  have "\<exists>new. ledger (add_blocks example_lib [example_calls 0, example_calls 1] example_started)
               = Stored ([example_genesis] @ new)
          \<and> length new = 2
          \<and> distinct (map index ([example_genesis] @ new))"
    by auto
  moreover have "index ([example_genesis] ! 0) = int 0"
    by (simp add: example_genesis_def genesis_block_simps)
  ultimately show ?thesis using ne by (simp add: example_started_simps)
qed

lemma simulation_reading_normal:
  assumes "\<not> (tamper r \<or> fval (temp r) < 2 \<or> fval (temp r) > 30)"
  shows "simulation_reading L sid r w = (Inr (), insert_telemetry sid r w)"
  using assms by (simp add: simulation_reading_def Let_def)

lemma insert_telemetry_ledger:
  "ledger (insert_telemetry sid r w) = ledger w"
  "fault (insert_telemetry sid r w) = fault w"
  by (simp_all add: insert_telemetry_def utcnow_isoformat_def)

lemma utcnow_isoformat_ledger:
  "ledger (snd (utcnow_isoformat w)) = ledger w"
  "fault (snd (utcnow_isoformat w)) = fault w"
  by (simp_all add: utcnow_isoformat_def)

lemma simulation_reading_anomalous:
  assumes "tamper r \<or> fval (temp r) < 2 \<or> fval (temp r) > 30"
  shows "simulation_reading L sid r w =
     (case add_block L ''ALERT''
             (alert_payload sid r (fst (utcnow_isoformat (insert_telemetry sid r w))))
             (snd (utcnow_isoformat (insert_telemetry sid r w))) of
        (Inl e, w3) \<Rightarrow> (Inl e, w3)
      | (Inr b, w3) \<Rightarrow> (Inr (), w3))"
  using assms by (simp add: simulation_reading_def Let_def split_beta)

lemma alert_time:
  "fst (utcnow_isoformat (insert_telemetry sid r w)) = utc_src w (Suc (reads w))"
  by (simp add: insert_telemetry_def utcnow_isoformat_def)

text \<open>
  C8. A reading is treated as anomalous exactly when its tamper flag is set or its
  temperature is below 2 or above 30. On such a reading \<open>simulation_reading\<close> appends
  exactly one block, after the tail of the chain, with event type ALERT and a payload of
  the shipment identifier, the temperature, the tamper flag and the time read for the
  alert (the clock read that follows the one of \<open>insert_telemetry\<close>); on any other reading
  it leaves the ledger file as it was.
\<close>

theorem anomaly_alert:
  assumes "ledger w = Stored chain" and "chain \<noteq> []" and "fault w = NoFault"
  shows "((tamper r \<or> fval (temp r) < 2 \<or> fval (temp r) > 30) \<longrightarrow>
            (\<exists>b w'. simulation_reading L sid r w = (Inr (), w')
               \<and> ledger w' = Stored (chain @ [b])
               \<and> index b = index (last chain) + 1
               \<and> prev_hash b = hash (last chain)
               \<and> data b = PDict [(''event'', PStr ''ALERT''),
                                 (''payload'',
                                  PDict [(''shipment_id'', PStr sid),
                                         (''temp'', PFloat (temp r)),
                                         (''tamper'', PBool (tamper r)),
                                         (''ts'', PStr (utc_src w (Suc (reads w))))])]))
       \<and> (\<not> (tamper r \<or> fval (temp r) < 2 \<or> fval (temp r) > 30) \<longrightarrow>
            (\<exists>w'. simulation_reading L sid r w = (Inr (), w') \<and> ledger w' = ledger w))"
proof (intro conjI impI)
  assume a: "tamper r \<or> fval (temp r) < 2 \<or> fval (temp r) > 30"
  define w2 where "w2 = snd (utcnow_isoformat (insert_telemetry sid r w))"
  define ts where "ts = fst (utcnow_isoformat (insert_telemetry sid r w))"
  define b where
    "b = next_block L ''ALERT'' (alert_payload sid r ts) (last chain) (time_src w2 (reads w2))"
  have l2: "ledger w2 = Stored chain" and f2: "fault w2 = NoFault"
    using assms by (simp_all add: w2_def utcnow_isoformat_ledger insert_telemetry_ledger)
  have ab: "add_block L ''ALERT'' (alert_payload sid r ts) w2
      = (Inr b, w2\<lparr>reads := Suc (reads w2), ledger := Stored (chain @ [b])\<rparr>)"
    unfolding b_def by (rule add_block_stored [OF l2 assms(2) f2])
  have "simulation_reading L sid r w =
     (case add_block L ''ALERT'' (alert_payload sid r ts) w2 of
        (Inl e, w3) \<Rightarrow> (Inl e, w3)
      | (Inr b, w3) \<Rightarrow> (Inr (), w3))"
    unfolding w2_def ts_def by (rule simulation_reading_anomalous [OF a])
  with ab have "simulation_reading L sid r w
      = (Inr (), w2\<lparr>reads := Suc (reads w2), ledger := Stored (chain @ [b])\<rparr>)"
    by simp
  moreover have "ts = utc_src w (Suc (reads w))"
    unfolding ts_def by (rule alert_time)
  then have "data b = PDict [(''event'', PStr ''ALERT''),
                            (''payload'',
                             PDict [(''shipment_id'', PStr sid),
                                    (''temp'', PFloat (temp r)),
                                    (''tamper'', PBool (tamper r)),
                                    (''ts'', PStr (utc_src w (Suc (reads w))))])]"
    by (simp add: b_def next_block_simps alert_payload_def)
  moreover have "index b = index (last chain) + 1" "prev_hash b = hash (last chain)"
    by (simp_all add: b_def next_block_simps)
  ultimately show "\<exists>b w'. simulation_reading L sid r w = (Inr (), w')
               \<and> ledger w' = Stored (chain @ [b])
               \<and> index b = index (last chain) + 1
               \<and> prev_hash b = hash (last chain)
               \<and> data b = PDict [(''event'', PStr ''ALERT''),
                                 (''payload'',
                                  PDict [(''shipment_id'', PStr sid),
                                         (''temp'', PFloat (temp r)),
                                         (''tamper'', PBool (tamper r)),
                                         (''ts'', PStr (utc_src w (Suc (reads w))))])]"
    by force
next
  assume "\<not> (tamper r \<or> fval (temp r) < 2 \<or> fval (temp r) > 30)"
  then show "\<exists>w'. simulation_reading L sid r w = (Inr (), w') \<and> ledger w' = ledger w"
    by (simp add: simulation_reading_normal insert_telemetry_ledger)
qed

lemma example_alert_time:
  "utc_src example_started (Suc (reads example_started)) = ''2024-01-01T00:00:02''"
  by (simp add: example_started_def example_world_def str_nat_2 flip: numeral_2_eq_2)

theorem anomaly_alert_witness:
  "ledger example_started = Stored [example_genesis] \<and> [example_genesis] \<noteq> []
   \<and> fault example_started = NoFault
   \<and> (tamper example_hot \<or> fval (temp example_hot) < 2 \<or> fval (temp example_hot) > 30)
   \<and> (\<exists>b w'. simulation_reading example_lib ''S1'' example_hot example_started = (Inr (), w')
          \<and> ledger w' = Stored ([example_genesis] @ [b])
          \<and> index b = 1
          \<and> prev_hash b = hash example_genesis
          \<and> data b = PDict [(''event'', PStr ''ALERT''),
                            (''payload'', PDict [(''shipment_id'', PStr ''S1''),
                                                 (''temp'', PFloat (PyFloat 35 ''35.0'')),
                                                 (''tamper'', PBool False),
                                                 (''ts'', PStr ''2024-01-01T00:00:02'')])])
   \<and> \<not> (tamper example_normal \<or> fval (temp example_normal) < 2
          \<or> fval (temp example_normal) > 30)
   \<and> (\<exists>w'. simulation_reading example_lib ''S1'' example_normal example_started = (Inr (), w')
          \<and> ledger w' = Stored [example_genesis])"
proof -
  have ne: "[example_genesis] \<noteq> []" by simp
  have h: "tamper example_hot \<or> fval (temp example_hot) < 2 \<or> fval (temp example_hot) > 30"
    by (simp add: example_hot_def)
  have n: "\<not> (tamper example_normal \<or> fval (temp example_normal) < 2
          \<or> fval (temp example_normal) > 30)"
    by (simp add: example_normal_def example_hot_def)
  have v: "temp example_hot = PyFloat 35 ''35.0''" "tamper example_hot = False"
    by (simp_all add: example_hot_def)
  have g: "index example_genesis = 0"
    by (simp add: example_genesis_def genesis_block_simps)
  from anomaly_alert [OF example_started_simps(1) ne example_started_simps(2),
      of example_hot example_lib "''S1''"] h
  have a: "\<exists>b w'. simulation_reading example_lib ''S1'' example_hot example_started = (Inr (), w')
          \<and> ledger w' = Stored ([example_genesis] @ [b])
          \<and> index b = 1
          \<and> prev_hash b = hash example_genesis
          \<and> data b = PDict [(''event'', PStr ''ALERT''),
                            (''payload'', PDict [(''shipment_id'', PStr ''S1''),
                                                 (''temp'', PFloat (PyFloat 35 ''35.0'')),
                                                 (''tamper'', PBool False),
                                                 (''ts'', PStr ''2024-01-01T00:00:02'')])]"
    unfolding example_alert_time v by (simp add: g)
  from anomaly_alert [OF example_started_simps(1) ne example_started_simps(2),
      of example_normal example_lib "''S1''"] n
  have b: "\<exists>w'. simulation_reading example_lib ''S1'' example_normal example_started = (Inr (), w')
          \<and> ledger w' = Stored [example_genesis]"
    by (simp add: example_started_simps)
  from ne h n a b show ?thesis by (simp add: example_started_simps)
qed

lemma insert_shipment_fields:
  "started (insert_shipment sid bid w) = started w"
  "sim_thread (insert_shipment sid bid w) = sim_thread w"
  "ledger (insert_shipment sid bid w) = ledger w"
  by (simp_all add: insert_shipment_def utcnow_isoformat_def)

lemma insert_shipment_ids:
  "set (map shipment_id (shipments (insert_shipment sid bid w)))
     = insert sid (set (map shipment_id (shipments w)))"
  by (auto simp: insert_shipment_def utcnow_isoformat_def)

lemma foldl_insert_shipment:
  "started (foldl (\<lambda>v sid. insert_shipment sid (f sid) v) w sids) = started w
   \<and> sim_thread (foldl (\<lambda>v sid. insert_shipment sid (f sid) v) w sids) = sim_thread w
   \<and> ledger (foldl (\<lambda>v sid. insert_shipment sid (f sid) v) w sids) = ledger w
   \<and> set (map shipment_id (shipments (foldl (\<lambda>v sid. insert_shipment sid (f sid) v) w sids)))
       = set sids \<union> set (map shipment_id (shipments w))"
proof (induction sids arbitrary: w)
  case Nil
  show ?case by simp
next
  case (Cons s sids)
  from Cons.IH [of "insert_shipment s (f s) w"] show ?case
    using insert_shipment_ids [of s "f s" w]
    by (simp add: insert_shipment_fields)
qed

text \<open>
  C9. While a simulation thread is alive \<open>api_simulate_start\<close> raises an HTTP error and
  changes nothing. Otherwise it names the shipments SHIP-SIM-1 to SHIP-SIM-n, registers
  them, clears the stop event and starts exactly one thread.
\<close>

theorem start_simulation:
  "(running w \<longrightarrow>
      api_simulate_start shipment_count interval_sec w
        = (Inl (HTTPException 400 ''Simulation already running''), w))
   \<and> (\<not> running w \<longrightarrow>
      (\<exists>w' t. api_simulate_start shipment_count interval_sec w
                 = (Inr (''started'', map (\<lambda>i. ''SHIP-SIM-'' @ str_int i) [1..shipment_count]),
                    w')
         \<and> t = \<lparr>thread_shipment_ids = map (\<lambda>i. ''SHIP-SIM-'' @ str_int i) [1..shipment_count],
                 thread_interval = interval_sec, is_alive = True\<rparr>
         \<and> started w' = started w @ [t]
         \<and> sim_thread w' = Some t
         \<and> running w'
         \<and> \<not> sim_stop_event w'
         \<and> set (thread_shipment_ids t) \<subseteq> set (map shipment_id (shipments w'))
         \<and> ledger w' = ledger w))"
proof (intro conjI impI)
  assume "running w"
  then show "api_simulate_start shipment_count interval_sec w
        = (Inl (HTTPException 400 ''Simulation already running''), w)"
    by (simp add: api_simulate_start_def)
next
  assume idle: "\<not> running w"
  define ids where "ids = map (\<lambda>i. ''SHIP-SIM-'' @ str_int i) [1..shipment_count]"
  define w1 where
    "w1 = foldl (\<lambda>v sid. insert_shipment sid (''BATCH-SIM-'' @ [last sid]) v) w ids"
  define t where
    "t = \<lparr>thread_shipment_ids = ids, thread_interval = interval_sec, is_alive = True\<rparr>"
  define w' where
    "w' = w1\<lparr>sim_stop_event := False, sim_thread := Some t, started := started w1 @ [t]\<rparr>"
  have f: "started w1 = started w" "ledger w1 = ledger w"
    "set (map shipment_id (shipments w1)) = set ids \<union> set (map shipment_id (shipments w))"
    unfolding w1_def
    using foldl_insert_shipment [of "\<lambda>sid. ''BATCH-SIM-'' @ [last sid]" w ids] by simp_all
  have r: "api_simulate_start shipment_count interval_sec w = (Inr (''started'', ids), w')"
    using idle
    by (simp add: api_simulate_start_def sim_shipment_ids_def Let_def ids_def w1_def t_def
        w'_def)
  have p: "started w' = started w @ [t]" "sim_thread w' = Some t" "running w'"
    "\<not> sim_stop_event w'" "ledger w' = ledger w"
    "set (thread_shipment_ids t) \<subseteq> set (map shipment_id (shipments w'))"
    using f by (simp_all add: w'_def running_def t_def)
  from r p show "\<exists>w' t. api_simulate_start shipment_count interval_sec w
                 = (Inr (''started'', map (\<lambda>i. ''SHIP-SIM-'' @ str_int i) [1..shipment_count]),
                    w')
         \<and> t = \<lparr>thread_shipment_ids = map (\<lambda>i. ''SHIP-SIM-'' @ str_int i) [1..shipment_count],
                 thread_interval = interval_sec, is_alive = True\<rparr>
         \<and> started w' = started w @ [t]
         \<and> sim_thread w' = Some t
         \<and> running w'
         \<and> \<not> sim_stop_event w'
         \<and> set (thread_shipment_ids t) \<subseteq> set (map shipment_id (shipments w'))
         \<and> ledger w' = ledger w"
    unfolding ids_def [symmetric] t_def [symmetric] by blast
qed

lemma example_ids: "map (\<lambda>i. ''SHIP-SIM-'' @ str_int i) [1..2] = [''SHIP-SIM-1'', ''SHIP-SIM-2'']"
  by (simp add: upto.simps str_int_def str_nat.simps digit_char_def)

theorem start_simulation_witness:
  "running example_running
   \<and> api_simulate_start 2 (PyFloat 2 ''2.0'') example_running
       = (Inl (HTTPException 400 ''Simulation already running''), example_running)
   \<and> \<not> running example_world
   \<and> (\<exists>w'. api_simulate_start 2 (PyFloat 2 ''2.0'') example_world
              = (Inr (''started'', [''SHIP-SIM-1'', ''SHIP-SIM-2'']), w')
         \<and> started w' = [\<lparr>thread_shipment_ids = [''SHIP-SIM-1'', ''SHIP-SIM-2''],
                            thread_interval = PyFloat 2 ''2.0'', is_alive = True\<rparr>]
         \<and> running w')"
proof -
  have a: "running example_running"
    by (simp add: running_def example_running_def example_thread_def)
  have b: "\<not> running example_world"
    by (simp add: running_def example_world_def)
  have s: "started example_world = []" by (simp add: example_world_def)
  from start_simulation [of example_running 2 "PyFloat 2 ''2.0''"] a
  have c: "api_simulate_start 2 (PyFloat 2 ''2.0'') example_running
       = (Inl (HTTPException 400 ''Simulation already running''), example_running)"
    by blast
  from start_simulation [of example_world 2 "PyFloat 2 ''2.0''"] b
  have d: "\<exists>w'. api_simulate_start 2 (PyFloat 2 ''2.0'') example_world
              = (Inr (''started'', [''SHIP-SIM-1'', ''SHIP-SIM-2'']), w')
         \<and> started w' = [\<lparr>thread_shipment_ids = [''SHIP-SIM-1'', ''SHIP-SIM-2''],
                            thread_interval = PyFloat 2 ''2.0'', is_alive = True\<rparr>]
         \<and> running w'"
    unfolding example_ids s by auto
  from a b c d show ?thesis by blast
qed

end
